theory Spec2Isabelle
  imports Complex_Main
begin

chapter \<open>The model\<close>

section \<open>Numbers and fields\<close>

text \<open>
  The application computes on JavaScript numbers. A finite number is modelled by the real
  it denotes, so arithmetic is exact: the rounding of IEEE doubles is outside this
  development, and the infinities appear only as arguments of \<open>formatNumber\<close>.
  \<open>NaN\<close> is kept as a value of its own, since the source tests for it.
\<close>

datatype number = Num real | NaN

fun isNaN :: "number \<Rightarrow> bool" where
  "isNaN NaN = True"
| "isNaN (Num r) = False"

fun the_real :: "number \<Rightarrow> real" where
  "the_real (Num r) = r"
| "the_real NaN = 0"

text \<open>
  A \<open>DataField\<close> is \<open>{name, type, value[]}\<close>. Each property may be missing at run
  time (\<open>None\<close>); a present \<open>value\<close> is an array of numbers.
\<close>

record DataField =
  field_name :: "string option"
  field_type :: "string option"
  field_value :: "number list option"

text \<open>\<open>createError(code, message)\<close> builds the error that is thrown.\<close>

datatype error =
  VALIDATION_ERROR string
| ANALYSIS_ERROR string
| TypeError

text \<open>A property read inside a template literal: a missing one renders as \<open>undefined\<close>.\<close>

definition template :: "string option \<Rightarrow> string" where
  "template s = (case s of None \<Rightarrow> ''undefined'' | Some t \<Rightarrow> t)"

section \<open>DataAnalyzer: calculateMean, calculateMedian, calculateStdDev\<close>

text \<open>
  \<^verbatim>\<open>values.reduce((sum, val) => sum + val, 0)\<close> is a left fold from 0. The functions
  are modelled on arrays of finite numbers.
\<close>

definition calculateMean :: "real list \<Rightarrow> real" where
  "calculateMean values =
     (if length values = 0 then 0
      else foldl (\<lambda>sum val. sum + val) 0 values / real (length values))"

definition calculateMedian :: "real list \<Rightarrow> real" where
  "calculateMedian values =
     (if length values = 0 then 0
      else let sorted = sort values;
               middle = length sorted div 2
           in if length sorted mod 2 = 0
              then (sorted ! (middle - 1) + sorted ! middle) / 2
              else sorted ! middle)"

definition calculateStdDev :: "real list \<Rightarrow> real" where
  "calculateStdDev values =
     (if length values = 0 then 0
      else let mean = calculateMean values;
               squaredDiffs = map (\<lambda>val. (val - mean) ^ 2) values
           in sqrt (calculateMean squaredDiffs))"

section \<open>AnalysisEngine: calculateDescriptiveStats\<close>

text \<open>
  The object stored for a field: \<open>{mean, median, standardDeviation, min, max}\<close>
  (the selectors carry the prefix \<open>ds_\<close>).
\<close>

record DescriptiveStats =
  ds_mean :: real
  ds_median :: real
  ds_standardDeviation :: real
  ds_min :: real
  ds_max :: real

text \<open>
  The body of the \<open>forEach\<close> callback of \<open>calculateDescriptiveStats\<close> at one field:
  it throws when the field has no values or holds a \<open>NaN\<close>, and otherwise computes the
  statistics stored under the field's name.
\<close>

definition fieldDescriptiveStats :: "DataField \<Rightarrow> error + DescriptiveStats" where
  "fieldDescriptiveStats field =
     (case field_value field of
        None \<Rightarrow> Inl (VALIDATION_ERROR
                  (''Field '' @ template (field_name field) @ '' has no valid data''))
      | Some vals \<Rightarrow>
          if length vals = 0 then
            Inl (VALIDATION_ERROR
                  (''Field '' @ template (field_name field) @ '' has no valid data''))
          else if \<not> list_all (\<lambda>v. \<not> isNaN v) vals then
            Inl (VALIDATION_ERROR
                  (''Field '' @ template (field_name field) @ '' contains non-numeric values''))
          else
            let values = map the_real vals;
                sum = foldl (\<lambda>a b. a + b) 0 values;
                mean = sum / real (length values);
                sorted = sort values;
                median = sorted ! (length sorted div 2);
                squaredDiffs = map (\<lambda>x. (x - mean) ^ 2) values;
                variance = foldl (\<lambda>a b. a + b) 0 squaredDiffs / real (length values);
                stdDev = sqrt variance
            in Inr \<lparr>ds_mean = mean, ds_median = median, ds_standardDeviation = stdDev,
                     ds_min = Min (set values), ds_max = Max (set values)\<rparr>)"

text \<open>
  The loop over the fields: the first field that throws aborts the whole call, otherwise
  each field's statistics are stored under its name.
\<close>

fun calculateDescriptiveStats ::
  "DataField list \<Rightarrow> (string \<rightharpoonup> DescriptiveStats) \<Rightarrow> error + (string \<rightharpoonup> DescriptiveStats)"
where
  "calculateDescriptiveStats [] stats = Inr stats"
| "calculateDescriptiveStats (field # rest) stats =
     (case fieldDescriptiveStats field of
        Inl e \<Rightarrow> Inl e
      | Inr st \<Rightarrow> calculateDescriptiveStats rest (stats(template (field_name field) \<mapsto> st)))"

section \<open>AnalysisEngine: validateFields\<close>


text \<open>\<open>Array.prototype.join\<close>: a missing element is rendered as the empty string.\<close>

fun join :: "string \<Rightarrow> string option list \<Rightarrow> string" where
  "join sep [] = []"
| "join sep [x] = (case x of None \<Rightarrow> [] | Some t \<Rightarrow> t)"
| "join sep (x # y # ys) = (case x of None \<Rightarrow> [] | Some t \<Rightarrow> t) @ sep @ join sep (y # ys)"



section \<open>AnalysisEngine: calculatePearsonCorrelation\<close>

text \<open>
  \<open>sumXY\<close> reads \<open>y[i]\<close> for every index of \<open>x\<close>: when \<open>y\<close> is shorter, the
  read is \<open>undefined\<close> and the sum is \<open>NaN\<close>. \<open>Math.sqrt\<close> of a negative number is
  \<open>NaN\<close>, and arithmetic with a \<open>NaN\<close> operand is \<open>NaN\<close>.
\<close>

definition calculatePearsonCorrelation :: "real list \<Rightarrow> real list \<Rightarrow> number" where
  "calculatePearsonCorrelation x y =
     (let n = real (length x);
          sumX = foldl (\<lambda>a b. a + b) 0 x;
          sumY = foldl (\<lambda>a b. a + b) 0 y;
          sumXY = (if length y < length x then NaN
                   else Num (foldl (\<lambda>sum i. sum + x ! i * y ! i) 0 [0..<length x]));
          sumX2 = foldl (\<lambda>sum xi. sum + xi * xi) 0 x;
          sumY2 = foldl (\<lambda>sum yi. sum + yi * yi) 0 y;
          numerator = (case sumXY of NaN \<Rightarrow> NaN | Num s \<Rightarrow> Num (n * s - sumX * sumY));
          radicand = (n * sumX2 - sumX * sumX) * (n * sumY2 - sumY * sumY);
          denominator = (if radicand < 0 then NaN else Num (sqrt radicand))
      in if denominator = Num 0 then Num 0
         else (case (numerator, denominator) of
                 (Num p, Num q) \<Rightarrow> Num (p / q)
               | _ \<Rightarrow> NaN))"



section \<open>StatsSummary: calculateFieldStats\<close>

text \<open>
  The \<open>FieldStats\<close> object (selectors prefixed \<open>fs_\<close>); the optional properties
  stay \<open>None\<close> until they are assigned.
\<close>

record FieldStats =
  fs_name :: "string option"
  fs_type :: "string option"
  fs_count :: nat
  fs_mean :: "real option"
  fs_median :: "real option"
  fs_min :: "real option"
  fs_max :: "real option"
  fs_stdDev :: "real option"
  fs_missing :: nat

text \<open>
  The \<open>map\<close> callback of \<open>calculateFieldStats\<close> at a field whose type is
  \<open>number\<close>. (The branch for \<open>string\<close> fields only counts blank strings and is not
  part of this model.) Reading \<open>field.value.length\<close> of a missing array is a TypeError.
\<close>

definition numberFieldStats :: "DataField \<Rightarrow> error + FieldStats" where
  "numberFieldStats field =
     (case field_value field of
        None \<Rightarrow> Inl TypeError
      | Some values \<Rightarrow>
          let stats = \<lparr>fs_name = field_name field, fs_type = field_type field,
                        fs_count = length values,
                        fs_mean = None, fs_median = None, fs_min = None, fs_max = None,
                        fs_stdDev = None, fs_missing = 0\<rparr>;
              numericValues = map the_real (filter (\<lambda>v. \<not> isNaN v) values);
              stats = stats\<lparr>fs_missing := length values - length numericValues\<rparr>
          in if length numericValues > 0 then
               let sorted = sort numericValues;
                   mean = foldl (\<lambda>a b. a + b) 0 numericValues / real (length numericValues)
               in Inr (stats\<lparr>fs_mean := Some mean,
                              fs_median := Some (sorted ! (length sorted div 2)),
                              fs_min := Some (sorted ! 0),
                              fs_max := Some (sorted ! (length sorted - 1)),
                              fs_stdDev := Some (sqrt
                                (foldl (\<lambda>a b. a + (b - mean) ^ 2) 0 numericValues
                                   / real (length numericValues)))\<rparr>)
             else Inr stats)"

section \<open>The reference median\<close>

text \<open>
  The reference calculation, as the specification words it: the middle element of the
  sorted values when the count is odd, the average of the two middle elements when it is
  even.
\<close>

definition reference_median :: "real list \<Rightarrow> real" where
  "reference_median values =
     (let sorted = sort values; n = length values
      in if odd n then sorted ! (n div 2)
         else (sorted ! (n div 2 - 1) + sorted ! (n div 2)) / 2)"

text \<open>A numeric field with the given finite values.\<close>

definition numeric_field :: "string \<Rightarrow> real list \<Rightarrow> DataField" where
  "numeric_field n xs =
     \<lparr>field_name = Some n, field_type = Some ''number'', field_value = Some (map Num xs)\<rparr>"

section \<open>NLQuerySection: handleQuery\<close>

text \<open>
  What a \<open>catch\<close> clause can receive: an \<open>Error\<close> instance with its message, or any
  other thrown value.
\<close>

datatype thrown = ErrorInstance string | OtherValue

text \<open>
  The component state: the loading flag and the response, which is \<open>null\<close> (\<open>None\<close>),
  the result of the query, or the object \<open>{error: message}\<close>.
\<close>

datatype 'r response = QueryResult 'r | ErrorObject string

record 'r NLQueryState =
  isLoading :: bool
  response :: "'r response option"

text \<open>
  A statement runs on the state and completes normally (\<open>Inr\<close>) or throws (\<open>Inl\<close>).
\<close>

type_synonym ('r, 'a) stmt = "'r NLQueryState \<Rightarrow> (thrown + 'a) \<times> 'r NLQueryState"

definition setIsLoading :: "bool \<Rightarrow> ('r, unit) stmt" where
  "setIsLoading b s = (Inr (), s\<lparr>isLoading := b\<rparr>)"

definition setResponse :: "'r response \<Rightarrow> ('r, unit) stmt" where
  "setResponse r s = (Inr (), s\<lparr>response := Some r\<rparr>)"

text \<open>\<open>await p\<close>: the value of a fulfilled promise, or its rejection thrown.\<close>

definition await :: "thrown + 'a \<Rightarrow> ('r, 'a) stmt" where
  "await outcome s = (outcome, s)"

definition seq :: "('r, 'a) stmt \<Rightarrow> ('a \<Rightarrow> ('r, 'b) stmt) \<Rightarrow> ('r, 'b) stmt" where
  "seq p q s = (case p s of (Inl e, s') \<Rightarrow> (Inl e, s') | (Inr v, s') \<Rightarrow> q v s')"

text \<open>
  \<open>try { body } catch (error) { handler } finally { fin }\<close>: the handler runs when the
  body throws, the finally block runs in every case, and an exception of the handler or of
  the finally block escapes.
\<close>

definition try_catch_finally ::
  "('r, unit) stmt \<Rightarrow> (thrown \<Rightarrow> ('r, unit) stmt) \<Rightarrow> ('r, unit) stmt \<Rightarrow> ('r, unit) stmt"
where
  "try_catch_finally body handler fin s =
     (let (completion, s1) =
            (case body s of
               (Inr v, s') \<Rightarrow> (Inr v, s')
             | (Inl e, s') \<Rightarrow> handler e s')
      in case fin s1 of
           (Inl e, s2) \<Rightarrow> (Inl e, s2)
         | (Inr _, s2) \<Rightarrow> (completion, s2))"

text \<open>
  \<open>processNaturalLanguageQuery\<close> is imported from a module that is not part of the
  sources at hand: it is a parameter, giving the outcome of the awaited promise.
\<close>

definition handleQuery ::
  "(string \<Rightarrow> DataField list \<Rightarrow> thrown + 'r) \<Rightarrow> DataField list \<Rightarrow> string \<Rightarrow> ('r, unit) stmt"
where
  "handleQuery processNaturalLanguageQuery data_fields query =
     seq (setIsLoading True) (\<lambda>_.
       try_catch_finally
         (seq (await (processNaturalLanguageQuery query data_fields))
              (\<lambda>result. setResponse (QueryResult result)))
         (\<lambda>error. setResponse (ErrorObject
            (case error of ErrorInstance message \<Rightarrow> message
                         | OtherValue \<Rightarrow> ''Failed to process query'')))
         (setIsLoading False))"

section \<open>formatNumber\<close>




text \<open>The decimal digits of a natural number, without leading zeros.\<close>

definition digit_char :: "nat \<Rightarrow> char" where
  "digit_char d = ''0123456789'' ! d"

fun digits :: "nat \<Rightarrow> string" where
  "digits n = (if n < 10 then [digit_char n] else digits (n div 10) @ [digit_char (n mod 10)])"

declare digits.simps [simp del]

text \<open>
  \<open>Number.prototype.toFixed(f)\<close> on a finite number, following the language
  specification: the sign is split off; at \<open>10^21\<close> and above the result is that of
  \<open>toString\<close> (exponent notation, a parameter here); below, \<open>n\<close> is the integer nearest
  to \<open>x * 10^f\<close> (the larger one on a tie), its digits are padded with zeros to
  \<open>f + 1\<close> places, and the point is put before the last \<open>f\<close> digits.
\<close>

definition toFixed :: "(real \<Rightarrow> string) \<Rightarrow> nat \<Rightarrow> real \<Rightarrow> string" where
  "toFixed toString f v =
     (let s = (if v < 0 then ''-'' else []);
          x = (if v < 0 then - v else v);
          m = (if x \<ge> 10 ^ 21 then toString x
               else let n = nat \<lfloor>x * 10 ^ f + 1 / 2\<rfloor>;
                        m = digits n;
                        k = length m;
                        m = (if k \<le> f then replicate (f + 1 - k) (CHR ''0'') @ m else m);
                        k = (if k \<le> f then f + 1 else k)
                    in if f \<noteq> 0 then take (k - f) m @ ''.'' @ drop (k - f) m else m)
      in s @ m)"


section \<open>CorrelationMatrix: correlations\<close>

text \<open>The key \<^verbatim>\<open>`${field1.name}_${field2.name}`\<close>.\<close>

definition key_of :: "DataField \<Rightarrow> DataField \<Rightarrow> string" where
  "key_of field1 field2 = template (field_name field1) @ ''_'' @ template (field_name field2)"

text \<open>\<open>values?.length\<close> is truthy: the array is there and not empty.\<close>

definition has_length :: "number list option \<Rightarrow> bool" where
  "has_length values = (case values of None \<Rightarrow> False | Some vs \<Rightarrow> length vs \<noteq> 0)"

text \<open>
  The body of the inner loop at the indices \<open>i\<close> and \<open>j\<close>. \<open>calculateCorrelation\<close>
  is imported from a module that is not part of the sources at hand: it is a parameter,
  returning a number or throwing.
\<close>

definition matrix_cell ::
  "(number list \<Rightarrow> number list \<Rightarrow> error + number) \<Rightarrow> DataField list \<Rightarrow> nat \<Rightarrow>
   (string \<rightharpoonup> number) \<Rightarrow> nat \<Rightarrow> (string \<rightharpoonup> number)"
where
  "matrix_cell calculateCorrelation numericFields i matrix j =
     (let field1 = numericFields ! i;
          field2 = numericFields ! j;
          values1 = field_value field1;
          values2 = field_value field2
      in if \<not> has_length values1 \<or> \<not> has_length values2 then matrix
         else
           let key = key_of field1 field2
           in if i = j then matrix(key \<mapsto> Num 1)
              else if i < j then
                (case calculateCorrelation (the values1) (the values2) of
                   Inr c \<Rightarrow> (matrix(key \<mapsto> c))(key_of field2 field1 \<mapsto> c)
                 | Inl e \<Rightarrow> (matrix(key \<mapsto> Num 0))(key_of field2 field1 \<mapsto> Num 0))
              else matrix)"

text \<open>The inner loop over \<open>j\<close>, for one \<open>i\<close>.\<close>

definition matrix_row ::
  "(number list \<Rightarrow> number list \<Rightarrow> error + number) \<Rightarrow> DataField list \<Rightarrow>
   (string \<rightharpoonup> number) \<Rightarrow> nat \<Rightarrow> (string \<rightharpoonup> number)"
where
  "matrix_row calculateCorrelation numericFields matrix i =
     foldl (matrix_cell calculateCorrelation numericFields i) matrix [0..<length numericFields]"

text \<open>\<^verbatim>\<open>data?.fields?.filter(f => f.type === 'number') || []\<close>\<close>

definition numericFields :: "DataField list \<Rightarrow> DataField list" where
  "numericFields data_fields = filter (\<lambda>f. field_type f = Some ''number'') data_fields"

text \<open>
  The memoised \<open>correlations\<close>: the empty object when there are fewer than two numeric
  fields, otherwise the result of the two nested loops.
\<close>

definition correlations ::
  "(number list \<Rightarrow> number list \<Rightarrow> error + number) \<Rightarrow> DataField list \<Rightarrow> (string \<rightharpoonup> number)"
where
  "correlations calculateCorrelation data_fields =
     (let fs = numericFields data_fields
      in if length fs < 2 then Map.empty
         else foldl (matrix_row calculateCorrelation fs) Map.empty [0..<length fs])"

text \<open>Every field has a non-empty array of values.\<close>

definition all_have_values :: "DataField list \<Rightarrow> bool" where
  "all_have_values fs = (\<forall>f \<in> set fs. has_length (field_value f))"

text \<open>
  The keys tell the pairs of names apart: two pairs of fields with the same key have the
  same names. Names without an underscore are of this kind.
\<close>

definition unambiguous_keys :: "DataField list \<Rightarrow> bool" where
  "unambiguous_keys fs =
     (\<forall>a \<in> set fs. \<forall>b \<in> set fs. \<forall>c \<in> set fs. \<forall>d \<in> set fs.
        key_of a b = key_of c d \<longrightarrow>
          template (field_name a) = template (field_name c) \<and>
          template (field_name b) = template (field_name d))"

text \<open>The entries of a pair of fields and of the swapped pair are the same.\<close>

definition symmetric_on :: "DataField list \<Rightarrow> (string \<rightharpoonup> number) \<Rightarrow> bool" where
  "symmetric_on fs m = (\<forall>a \<in> set fs. \<forall>b \<in> set fs. m (key_of a b) = m (key_of b a))"

text \<open>What the \<open>try\<close> block stores for a pair: the correlation, or 0 when it throws.\<close>

definition correlation_or_zero ::
  "(number list \<Rightarrow> number list \<Rightarrow> error + number) \<Rightarrow> DataField \<Rightarrow> DataField \<Rightarrow> number"
where
  "correlation_or_zero corr f1 f2 =
     (case corr (the (field_value f1)) (the (field_value f2)) of Inr c \<Rightarrow> c | Inl e \<Rightarrow> Num 0)"

text \<open>
  One possible \<open>calculateCorrelation\<close>: the Pearson correlation of
  \<open>AnalysisEngine\<close>.
\<close>

definition engineCorrelation :: "number list \<Rightarrow> number list \<Rightarrow> error + number" where
  "engineCorrelation x y = Inr (calculatePearsonCorrelation (map the_real x) (map the_real y))"

section \<open>TextSummarization: generateSummary\<close>

text \<open>
  Strings are lists of ASCII characters. White space (\<open>\s\<close>, and what \<open>trim\<close>
  removes) is tab, line feed, vertical tab, form feed, carriage return and space.
\<close>

definition isSpace :: "char \<Rightarrow> bool" where
  "isSpace c = (c \<in> set [CHR 0x09, CHR 0x0A, CHR 0x0B, CHR 0x0C, CHR 0x0D, CHR '' ''])"

definition trim :: "string \<Rightarrow> string" where
  "trim s = rev (dropWhile isSpace (rev (dropWhile isSpace s)))"

text \<open>
  \<open>new RegExp(source, 'g')\<close> for the sources used here, which hold letters, digits and
  dots: a dot is not escaped, so it matches any character but a line terminator.
\<close>

datatype regex_item = Lit char | Dot

definition isLineTerminator :: "char \<Rightarrow> bool" where
  "isLineTerminator c = (c = CHR 0x0A \<or> c = CHR 0x0D)"

fun matches_item :: "regex_item \<Rightarrow> char \<Rightarrow> bool" where
  "matches_item (Lit c) d = (c = d)"
| "matches_item Dot d = (\<not> isLineTerminator d)"

fun matches_prefix :: "regex_item list \<Rightarrow> string \<Rightarrow> bool" where
  "matches_prefix [] s = True"
| "matches_prefix (p # ps) [] = False"
| "matches_prefix (p # ps) (c # cs) = (matches_item p c \<and> matches_prefix ps cs)"

definition RegExp :: "string \<Rightarrow> regex_item list" where
  "RegExp source = map (\<lambda>c. if c = CHR ''.'' then Dot else Lit c) source"

text \<open>
  \<open>s.replace(regexp, rep)\<close> with a global pattern of fixed length: every match, from
  left to right and without overlap, is replaced.
\<close>

function replace :: "regex_item list \<Rightarrow> string \<Rightarrow> string \<Rightarrow> string" where
  "replace pat rep [] = []"
| "replace pat rep (c # cs) =
     (if pat \<noteq> [] \<and> matches_prefix pat (c # cs)
      then rep @ replace pat rep (drop (length pat) (c # cs))
      else c # replace pat rep cs)"
  by pat_completeness auto
termination
  by (relation "measure (\<lambda>(pat, rep, s). length s)") auto

text \<open>
  \<^verbatim>\<open>processedText.match(/[^.!?]+[.!?]+/g) || []\<close>: each match is a longest run of
  characters other than \<open>. ! ?\<close> followed by a longest run of these; a final run with no
  terminator after it is not matched.
\<close>

definition isTerminator :: "char \<Rightarrow> bool" where
  "isTerminator c = (c \<in> set ''.!?'')"

function match_sentences :: "string \<Rightarrow> string list" where
  "match_sentences s =
     (let s1 = dropWhile isTerminator s;
          a = takeWhile (\<lambda>c. \<not> isTerminator c) s1;
          r = dropWhile (\<lambda>c. \<not> isTerminator c) s1;
          b = takeWhile isTerminator r
      in if a = [] \<or> b = [] then []
         else (a @ b) # match_sentences (dropWhile isTerminator r))"
  by pat_completeness auto
termination
proof (relation "measure length")
  show "wf (measure length)" by simp
next
  fix s s1 a r b :: string
  assume s1: "s1 = dropWhile isTerminator s"
    and a: "a = takeWhile (\<lambda>c. \<not> isTerminator c) s1"
    and r: "r = dropWhile (\<lambda>c. \<not> isTerminator c) s1"
    and "b = takeWhile isTerminator r"
    and ne: "\<not> (a = [] \<or> b = [])"
  have "length (dropWhile isTerminator r) \<le> length r"
    by (rule length_dropWhile_le)
  moreover have "length r < length s1"
  proof -
    have "length a + length r = length s1"
      unfolding a r by (metis length_append takeWhile_dropWhile_id)
    moreover have "length a \<noteq> 0" using ne by simp
    ultimately show ?thesis by linarith
  qed
  moreover have "length s1 \<le> length s"
    unfolding s1 by (rule length_dropWhile_le)
  ultimately show "(dropWhile isTerminator r, s) \<in> measure length"
    by simp
qed

declare match_sentences.simps [simp del]

text \<open>
  \<open>splitSentences\<close>: the abbreviations are replaced by placeholders, the text is cut
  into sentences, and in each sentence the placeholders are replaced back; the result is
  trimmed.
\<close>

definition abbrev :: "string list" where
  "abbrev = [''Mr.'', ''Mrs.'', ''Dr.'', ''Prof.'', ''e.g.'', ''i.e.'', ''etc.'', ''vs.'']"

definition placeholders :: "string list" where
  "placeholders = map (\<lambda>i. ''ABBREV'' @ digits i) [0..<length abbrev]"

definition splitSentences :: "string \<Rightarrow> string list" where
  "splitSentences text =
     (let processedText =
            foldl (\<lambda>t i. replace (RegExp (abbrev ! i)) (placeholders ! i) t) text
              [0..<length abbrev];
          sentences = match_sentences processedText
      in map (\<lambda>sentence.
                trim (foldl (\<lambda>restored i. replace (RegExp (placeholders ! i)) (abbrev ! i) restored)
                        sentence [0..<length abbrev]))
           sentences)"

text \<open>
  The words that count: the text in lower case, without the characters that are neither
  word characters, white space nor apostrophes, split at white space, keeping the words
  of more than two characters that are not stop words.
\<close>

definition toLowerCase :: "string \<Rightarrow> string" where
  "toLowerCase s =
     map (\<lambda>c. case map_of (zip ''ABCDEFGHIJKLMNOPQRSTUVWXYZ'' ''abcdefghijklmnopqrstuvwxyz'') c of
                None \<Rightarrow> c | Some l \<Rightarrow> l) s"

definition isWordChar :: "char \<Rightarrow> bool" where
  "isWordChar c =
     (c \<in> set ''abcdefghijklmnopqrstuvwxyzABCDEFGHIJKLMNOPQRSTUVWXYZ0123456789_'')"

text \<open>\<^verbatim>\<open>s.split(/\s+/)\<close>\<close>

function split_whitespace :: "string \<Rightarrow> string list" where
  "split_whitespace s =
     (let w = takeWhile (\<lambda>c. \<not> isSpace c) s;
          r = dropWhile (\<lambda>c. \<not> isSpace c) s
      in if r = [] then [w] else w # split_whitespace (dropWhile isSpace r))"
  by pat_completeness auto
termination
proof (relation "measure length")
  show "wf (measure length)" by simp
next
  fix s w r :: string
  assume r: "r = dropWhile (\<lambda>c. \<not> isSpace c) s" and ne: "r \<noteq> []"
  then have "isSpace (hd r)"
    using hd_dropWhile [of "\<lambda>c. \<not> isSpace c" s] by simp
  with ne have "length (dropWhile isSpace r) < length r"
    by (cases r) (simp_all add: le_imp_less_Suc length_dropWhile_le)
  moreover have "length r \<le> length s"
    unfolding r by (rule length_dropWhile_le)
  ultimately show "(dropWhile isSpace r, s) \<in> measure length"
    by simp
qed

declare split_whitespace.simps [simp del]

definition stopWords :: "string list" where
  "stopWords = [''the'', ''and'', ''a'', ''an'', ''in'', ''on'', ''at'', ''to'', ''for'', ''of'',
                ''with'', ''is'', ''are'', ''was'', ''were'']"

definition significantWords :: "string \<Rightarrow> string list" where
  "significantWords s =
     filter (\<lambda>word. length word > 2 \<and> word \<notin> set stopWords)
       (split_whitespace
          (filter (\<lambda>c. isWordChar c \<or> isSpace c \<or> c = CHR 0x27) (toLowerCase s)))"

text \<open>The map \<open>wordFreq\<close>: how often each word occurs.\<close>

definition countWords :: "string list \<Rightarrow> (string \<rightharpoonup> nat)" where
  "countWords ws =
     foldl (\<lambda>wordFreq word.
              wordFreq(word \<mapsto> (case wordFreq word of None \<Rightarrow> 0 | Some n \<Rightarrow> n) + 1))
       Map.empty ws"

text \<open>
  A \<open>ScoredSentence\<close> is \<open>{text, score, position}\<close> (selectors prefixed
  \<open>ss_\<close>).
\<close>

record ScoredSentence =
  ss_text :: string
  ss_score :: real
  ss_position :: nat

text \<open>The callback that scores the sentence at index \<open>idx\<close> out of \<open>n\<close>.\<close>

definition scoreSentence :: "(string \<rightharpoonup> nat) \<Rightarrow> nat \<Rightarrow> string \<Rightarrow> nat \<Rightarrow> ScoredSentence" where
  "scoreSentence wordFreq n sentence idx =
     (let sentenceWords = significantWords sentence;
          frequencyScore =
            real (foldl (\<lambda>sum word. sum + (case wordFreq word of None \<Rightarrow> 0 | Some n \<Rightarrow> n))
                    0 sentenceWords)
              / real (max 1 (length sentenceWords));
          lengthScore = 1 - \<bar>real (length sentenceWords) - 15\<bar> / 15;
          positionScore =
            (if idx = 0 \<or> int idx = int n - 1 then 1.25
             else 0.8 + 0.4 * (real idx / real n));
          totalScore = frequencyScore * 0.6 + lengthScore * 0.2 + positionScore * 0.2
      in \<lparr>ss_text = trim sentence, ss_score = totalScore, ss_position = idx\<rparr>)"

text \<open>
  \<open>xs.slice(0, end)\<close> for an integer \<open>end\<close>: a negative \<open>end\<close> counts from
  the end of the array.
\<close>

definition slice0 :: "int \<Rightarrow> 'a list \<Rightarrow> 'a list" where
  "slice0 end xs =
     (if end < 0 then take (nat (int (length xs) + end)) xs else take (nat end) xs)"

text \<open>
  \<open>generateSummary\<close> on a field whose value is the array \<open>texts\<close>: the error
  message that is caught and displayed, or the \<open>topSentences\<close> passed to
  \<open>setSummary\<close>. \<open>Array.prototype.sort\<close> is stable, as \<open>sort_key\<close> is. (The
  statistics computed beside the summary are not part of this model.)
\<close>

definition generateSummary :: "string list \<Rightarrow> int \<Rightarrow> string + ScoredSentence list" where
  "generateSummary texts maxSentences =
     (let fullText = join '' '' (map Some texts)
      in if length (trim fullText) = 0 then Inl ''Input text is empty''
         else
           let sentences = splitSentences fullText
           in if length sentences = 0 then Inl ''No valid sentences found in text''
              else
                let wordFreq = countWords (significantWords fullText);
                    scoredSentences =
                      map (\<lambda>idx. scoreSentence wordFreq (length sentences) (sentences ! idx) idx)
                        [0..<length sentences];
                    topSentences =
                      sort_key ss_position
                        (slice0 maxSentences (sort_key (\<lambda>s. - ss_score s) scoredSentences))
                in Inr topSentences)"

chapter \<open>Properties\<close>

section \<open>Sums\<close>

lemma foldl_add_sum_list: "foldl (\<lambda>a b. a + b) (s::real) xs = s + sum_list xs"
  by (induction xs arbitrary: s) simp_all

lemma the_real_comp_Num: "the_real \<circ> Num = id"
  by (rule ext) simp

lemma map_the_real_Num: "map the_real (map Num xs) = xs"
  by (simp add: the_real_comp_Num)

lemma list_all_not_NaN_Num: "list_all (\<lambda>v. \<not> isNaN v) (map Num xs)"
  by (induction xs) simp_all

lemma filter_not_NaN_Num: "filter (\<lambda>v. \<not> isNaN v) (map Num xs) = map Num xs"
  by (induction xs) simp_all

lemma foldl_sq_sum_list:
  "foldl (\<lambda>a b. a + (b - m) ^ 2) (s::real) xs = s + sum_list (map (\<lambda>x. (x - m) ^ 2) xs)"
  by (induction xs arbitrary: s) simp_all

section \<open>The mean\<close>

lemma calculateMean_sum_list:
  "xs \<noteq> [] \<Longrightarrow> calculateMean xs = sum_list xs / real (length xs)"
  by (simp add: calculateMean_def foldl_add_sum_list)

lemma fieldDescriptiveStats_numeric:
  assumes "xs \<noteq> []"
  shows "fieldDescriptiveStats (numeric_field n xs) =
           Inr \<lparr>ds_mean = sum_list xs / real (length xs),
                 ds_median = sort xs ! (length xs div 2),
                 ds_standardDeviation =
                   sqrt (sum_list (map (\<lambda>x. (x - sum_list xs / real (length xs)) ^ 2) xs)
                           / real (length xs)),
                 ds_min = Min (set xs), ds_max = Max (set xs)\<rparr>"
  using assms
  by (simp add: fieldDescriptiveStats_def numeric_field_def list_all_not_NaN_Num
        the_real_comp_Num foldl_add_sum_list Let_def)



section \<open>The median\<close>

text \<open>\<open>calculateMedian\<close> of DataAnalyzer is the reference median on every non-empty list.\<close>

lemma calculateMedian_reference:
  "xs \<noteq> [] \<Longrightarrow> calculateMedian xs = reference_median xs"
  by (auto simp: calculateMedian_def reference_median_def Let_def odd_iff_mod_2_eq_one)

lemma numberFieldStats_numeric:
  assumes "xs \<noteq> []"
  shows "numberFieldStats (numeric_field n xs) =
           Inr \<lparr>fs_name = Some n, fs_type = Some ''number'', fs_count = length xs,
                 fs_mean = Some (sum_list xs / real (length xs)),
                 fs_median = Some (sort xs ! (length xs div 2)),
                 fs_min = Some (sort xs ! 0),
                 fs_max = Some (sort xs ! (length xs - 1)),
                 fs_stdDev = Some (sqrt
                   (sum_list (map (\<lambda>x. (x - sum_list xs / real (length xs)) ^ 2) xs)
                      / real (length xs))),
                 fs_missing = 0\<rparr>"
  using assms
  by (simp add: numberFieldStats_def numeric_field_def filter_not_NaN_Num
        the_real_comp_Num foldl_add_sum_list foldl_sq_sum_list Let_def)

text \<open>
  On a list of odd length the engine and the summary take the same middle element as the
  reference median.
\<close>

lemma middle_element_reference:
  "odd (length xs) \<Longrightarrow> sort xs ! (length xs div 2) = reference_median xs"
  by (simp add: reference_median_def Let_def)

text \<open>
  C1: the displayed median of a numeric field should be the reference median. At the
  field with the two values 1 and 2 the reference median, and \<open>calculateMedian\<close> of
  DataAnalyzer, give 3/2, while \<open>AnalysisEngine.calculateDescriptiveStats\<close> and
  \<open>calculateFieldStats\<close> of StatsSummary both give 2, the upper of the two middle
  elements.
\<close>

theorem C1_median_even_count:
  "reference_median [1, 2] = 3 / 2 \<and>
   calculateMedian [1, 2] = 3 / 2 \<and>
   map_sum id ds_median (fieldDescriptiveStats (numeric_field ''a'' [1, 2])) = Inr 2 \<and>
   map_sum id fs_median (numberFieldStats (numeric_field ''a'' [1, 2])) = Inr (Some 2)"
  by (simp add: reference_median_def calculateMedian_def fieldDescriptiveStats_numeric
        numberFieldStats_numeric Let_def)

section \<open>The three implementations compared\<close>

lemma calculateStdDev_sum_list:
  "xs \<noteq> [] \<Longrightarrow>
   calculateStdDev xs =
     sqrt (sum_list (map (\<lambda>x. (x - sum_list xs / real (length xs)) ^ 2) xs)
             / real (length xs))"
  by (simp add: calculateStdDev_def calculateMean_def foldl_add_sum_list Let_def)

lemma calculateMedian_odd:
  "odd (length xs) \<Longrightarrow> calculateMedian xs = sort xs ! (length xs div 2)"
  by (auto simp: calculateMedian_def Let_def odd_iff_mod_2_eq_one)

text \<open>
  C2, as stated, fails: the three implementations do not compute the same function on
  every list. On the empty list \<open>calculateMean\<close>, \<open>calculateMedian\<close> and
  \<open>calculateStdDev\<close> return 0, \<open>calculateDescriptiveStats\<close> throws, and
  \<open>calculateFieldStats\<close> leaves mean, median and standard deviation undefined; on the
  list 1, 2 the medians differ.
\<close>

theorem C2_implementations_differ:
  "calculateMean [] = 0 \<and> calculateMedian [] = 0 \<and> calculateStdDev [] = 0 \<and>
   fieldDescriptiveStats (numeric_field ''a'' [])
     = Inl (VALIDATION_ERROR ''Field a has no valid data'') \<and>
   map_sum id (\<lambda>s. (fs_mean s, fs_median s, fs_stdDev s))
       (numberFieldStats (numeric_field ''a'' []))
     = Inr (None, None, None) \<and>
   map_sum id ds_median (fieldDescriptiveStats (numeric_field ''a'' [1, 2]))
     \<noteq> Inr (calculateMedian [1, 2]) \<and>
   map_sum id fs_median (numberFieldStats (numeric_field ''a'' [1, 2]))
     \<noteq> Inr (Some (calculateMedian [1, 2]))"
  by (simp add: calculateMean_def calculateMedian_def calculateStdDev_def
        fieldDescriptiveStats_def numberFieldStats_def numeric_field_def template_def Let_def)

text \<open>
  C2, amended: on every non-empty list of finite numbers the three implementations
  return the same mean and the same standard deviation, and the same median when the
  count is odd.
\<close>

theorem C2_implementations_agree:
  assumes "xs \<noteq> []"
  shows "map_sum id ds_mean (fieldDescriptiveStats (numeric_field n xs))
           = Inr (calculateMean xs) \<and>
         map_sum id fs_mean (numberFieldStats (numeric_field n xs))
           = Inr (Some (calculateMean xs)) \<and>
         map_sum id ds_standardDeviation (fieldDescriptiveStats (numeric_field n xs))
           = Inr (calculateStdDev xs) \<and>
         map_sum id fs_stdDev (numberFieldStats (numeric_field n xs))
           = Inr (Some (calculateStdDev xs)) \<and>
         (odd (length xs) \<longrightarrow>
            map_sum id ds_median (fieldDescriptiveStats (numeric_field n xs))
              = Inr (calculateMedian xs) \<and>
            map_sum id fs_median (numberFieldStats (numeric_field n xs))
              = Inr (Some (calculateMedian xs)))"
  using assms
  by (simp add: fieldDescriptiveStats_numeric numberFieldStats_numeric
        calculateMean_sum_list calculateStdDev_sum_list calculateMedian_odd)

theorem C2_agree_witness:
  "[4, 4, 4, 4, -1] \<noteq> ([] :: real list) \<and> odd (length [4, 4, 4, 4, -1 :: real]) \<and>
   calculateMean [4, 4, 4, 4, -1] = 3 \<and>
   calculateStdDev [4, 4, 4, 4, -1] = 2 \<and>
   calculateMedian [4, 4, 4, 4, -1] = 4 \<and>
   map_sum id ds_mean (fieldDescriptiveStats (numeric_field ''a'' [4, 4, 4, 4, -1])) = Inr 3 \<and>
   map_sum id fs_mean (numberFieldStats (numeric_field ''a'' [4, 4, 4, 4, -1])) = Inr (Some 3) \<and>
   map_sum id ds_standardDeviation (fieldDescriptiveStats (numeric_field ''a'' [4, 4, 4, 4, -1]))
     = Inr 2 \<and>
   map_sum id fs_stdDev (numberFieldStats (numeric_field ''a'' [4, 4, 4, 4, -1]))
     = Inr (Some 2) \<and>
   map_sum id ds_median (fieldDescriptiveStats (numeric_field ''a'' [4, 4, 4, 4, -1])) = Inr 4 \<and>
   map_sum id fs_median (numberFieldStats (numeric_field ''a'' [4, 4, 4, 4, -1]))
     = Inr (Some 4)"
proof -
  have m: "calculateMean [4, 4, 4, 4, -1] = 3"
    by (simp add: calculateMean_def)
  have s: "calculateStdDev [4, 4, 4, 4, -1] = 2"
    by (simp add: calculateStdDev_def calculateMean_def)
  have d: "calculateMedian [4, 4, 4, 4, -1] = 4"
    by (simp add: calculateMedian_def)
  show ?thesis
    using C2_implementations_agree [of "[4, 4, 4, 4, -1]" "''a''"] m s d by simp
qed

section \<open>The Pearson correlation\<close>









section \<open>Validation of the fields\<close>






section \<open>The query handler\<close>

text \<open>
  C5: whenever \<open>processNaturalLanguageQuery\<close> rejects, \<open>handleQuery\<close> completes
  normally with the response set to the object whose \<open>error\<close> is the message of the
  rejection, or \<open>Failed to process query\<close> when the rejection is not an \<open>Error\<close>;
  no exception escapes \<open>handleQuery\<close>, and the loading flag is false when it
  completes.
\<close>

theorem C5_handleQuery_rejected:
  "(processNaturalLanguageQuery query data_fields = Inl error \<longrightarrow>
      handleQuery processNaturalLanguageQuery data_fields query s =
        (Inr (),
         s\<lparr>isLoading := False,
           response := Some (ErrorObject
             (case error of ErrorInstance message \<Rightarrow> message
                          | OtherValue \<Rightarrow> ''Failed to process query''))\<rparr>)) \<and>
   fst (handleQuery processNaturalLanguageQuery data_fields query s) = Inr () \<and>
   \<not> isLoading (snd (handleQuery processNaturalLanguageQuery data_fields query s))"
  by (cases "processNaturalLanguageQuery query data_fields")
     (simp_all add: handleQuery_def seq_def try_catch_finally_def setIsLoading_def
        setResponse_def await_def)

theorem C5_handleQuery_witness:
  "handleQuery (\<lambda>q fs. Inl (ErrorInstance ''Query too vague'')) [] ''trends?''
       \<lparr>isLoading = False, response = (None :: unit response option)\<rparr>
     = (Inr (), \<lparr>isLoading = False, response = Some (ErrorObject ''Query too vague'')\<rparr>) \<and>
   handleQuery (\<lambda>q fs. Inl OtherValue) [] ''trends?''
       \<lparr>isLoading = False, response = (None :: unit response option)\<rparr>
     = (Inr (), \<lparr>isLoading = False, response = Some (ErrorObject ''Failed to process query'')\<rparr>)"
  using C5_handleQuery_rejected
          [of "\<lambda>q fs. Inl (ErrorInstance ''Query too vague'')" "''trends?''" "[]"
              "ErrorInstance ''Query too vague''"
              "\<lparr>isLoading = False, response = (None :: unit response option)\<rparr>"]
        C5_handleQuery_rejected
          [of "\<lambda>q fs. Inl OtherValue" "''trends?''" "[]" OtherValue
              "\<lparr>isLoading = False, response = (None :: unit response option)\<rparr>"]
  by simp

section \<open>Number formatting\<close>

lemma digit_char_0: "digit_char 0 = CHR ''0''"
  by (simp add: digit_char_def)

lemma digits_small: "n < 10 \<Longrightarrow> digits n = [digit_char n]"
  by (simp add: digits.simps)

lemma digits_step: "10 \<le> n \<Longrightarrow> digits n = digits (n div 10) @ [digit_char (n mod 10)]"
  by (subst digits.simps) simp

lemma length_digits_pos: "0 < length (digits n)"
  by (subst digits.simps) simp

lemma digits_two_places:
  "take (length (digits n) - 2) (digits n) = (if n < 100 then [] else digits (n div 100)) \<and>
   drop (length (digits n) - 2) (digits n) =
     (if n < 10 then [digit_char n]
      else [digit_char (n div 10 mod 10), digit_char (n mod 10)])"
proof (cases "n < 10")
  case True
  then show ?thesis by (simp add: digits_small)
next
  case False
  then have n: "10 \<le> n" by simp
  show ?thesis
  proof (cases "n < 100")
    case True
    then have "n div 10 < 10" by simp
    with n True show ?thesis
      by (simp add: digits_step digits_small)
  next
    case False
    then have "10 \<le> n div 10" by simp
    moreover have "n div 10 div 10 = n div 100"
      by (simp add: div_mult2_eq [symmetric])
    ultimately show ?thesis
      using n False
      by (simp add: digits_step [of n] digits_step [of "n div 10"])
  qed
qed

lemma toFixed_two_decimals:
  assumes "0 \<le> x" "x < 10 ^ 21"
  shows "toFixed ts 2 x =
           (let n = nat \<lfloor>x * 100 + 1 / 2\<rfloor>
            in digits (n div 100) @ ''.'' @
               [digit_char (n div 10 mod 10), digit_char (n mod 10)])"
proof -
  define n where "n = nat \<lfloor>x * 100 + 1 / 2\<rfloor>"
  have tf: "toFixed ts 2 x =
     (let m = digits n; k = length m;
          m' = (if k \<le> 2 then replicate (3 - k) (CHR ''0'') @ m else m);
          k' = (if k \<le> 2 then 3 else k)
      in take (k' - 2) m' @ ''.'' @ drop (k' - 2) m')"
    using assms by (simp add: toFixed_def n_def Let_def)
  consider "n < 10" | "10 \<le> n" "n < 100" | "100 \<le> n" by linarith
  then have "toFixed ts 2 x =
     digits (n div 100) @ ''.'' @ [digit_char (n div 10 mod 10), digit_char (n mod 10)]"
  proof cases
    case 1
    then show ?thesis
      by (simp add: tf digits_small digit_char_0 numeral_3_eq_3)
  next
    case 2
    then have "n div 10 < 10" by simp
    with 2 show ?thesis
      by (simp add: tf digits_step [of n] digits_small digit_char_0)
  next
    case 3
    then have "10 \<le> n div 10" "10 \<le> n" by simp_all
    then have len: "2 < length (digits n)"
      using length_digits_pos [of "n div 10 div 10"]
      by (simp add: digits_step [of n] digits_step [of "n div 10"])
    from 3 show ?thesis
      using digits_two_places [of n] len by (simp add: tf Let_def)
  qed
  then show ?thesis by (simp add: n_def Let_def)
qed

lemma toFixed_negative:
  "v < 0 \<Longrightarrow> toFixed ts f v = ''-'' @ toFixed ts f (- v)"
  by (simp add: toFixed_def Let_def)



section \<open>The correlation matrix\<close>

lemma foldl_invariant:
  assumes "P s" and "\<And>s x. x \<in> set xs \<Longrightarrow> P s \<Longrightarrow> P (f s x)"
  shows "P (foldl f s xs)"
  using assms by (induction xs arbitrary: s) simp_all

lemma foldl_upt_split:
  assumes "k < n"
  shows "foldl f s [0..<n] = foldl f (f (foldl f s [0..<k]) k) [Suc k..<n]"
proof -
  have "[0..<n] = [0..<k] @ [k..<n]"
    using assms upt_add_eq_append [of 0 k "n - k"] by simp
  moreover have "[k..<n] = k # [Suc k..<n]"
    using assms by (rule upt_conv_Cons)
  ultimately show ?thesis by simp
qed

lemma key_of_names:
  "template (field_name a) = template (field_name c) \<Longrightarrow>
   template (field_name b) = template (field_name d) \<Longrightarrow> key_of a b = key_of c d"
  by (simp add: key_of_def)

subsection \<open>The three kinds of cell\<close>

lemma matrix_cell_diag:
  "matrix_cell corr fs i m i =
     (if has_length (field_value (fs ! i)) then m(key_of (fs ! i) (fs ! i) \<mapsto> Num 1) else m)"
  by (simp add: matrix_cell_def Let_def)

lemma matrix_cell_above:
  "i < j \<Longrightarrow>
   matrix_cell corr fs i m j =
     (if has_length (field_value (fs ! i)) \<and> has_length (field_value (fs ! j))
      then (m(key_of (fs ! i) (fs ! j) \<mapsto> correlation_or_zero corr (fs ! i) (fs ! j)))
             (key_of (fs ! j) (fs ! i) \<mapsto> correlation_or_zero corr (fs ! i) (fs ! j))
      else m)"
  by (simp add: matrix_cell_def correlation_or_zero_def Let_def split: sum.splits)

lemma matrix_cell_below:
  "j < i \<Longrightarrow> matrix_cell corr fs i m j = m"
  by (simp add: matrix_cell_def Let_def)

subsection \<open>Keys not written\<close>

lemma matrix_cell_other_key:
  assumes "k \<noteq> key_of (fs ! i) (fs ! j)" "k \<noteq> key_of (fs ! j) (fs ! i)"
  shows "matrix_cell corr fs i m j k = m k"
proof (cases i j rule: linorder_cases)
  case less
  with assms show ?thesis by (simp add: matrix_cell_above)
next
  case equal
  with assms show ?thesis by (simp add: matrix_cell_diag)
next
  case greater
  then show ?thesis by (simp add: matrix_cell_below)
qed

lemma matrix_row_other_key:
  assumes "\<forall>j < length fs. k \<noteq> key_of (fs ! i) (fs ! j) \<and> k \<noteq> key_of (fs ! j) (fs ! i)"
  shows "matrix_row corr fs m i k = m k"
  unfolding matrix_row_def
proof (rule foldl_invariant [where P = "\<lambda>m'. m' k = m k"])
  show "m k = m k" ..
next
  fix m' j
  assume "j \<in> set [0..<length fs]" "m' k = m k"
  then show "matrix_cell corr fs i m' j k = m k"
    using assms by (simp add: matrix_cell_other_key)
qed

subsection \<open>Defined entries stay defined\<close>

lemma matrix_cell_dom_mono:
  "k \<in> dom m \<Longrightarrow> k \<in> dom (matrix_cell corr fs i m j)"
  by (cases i j rule: linorder_cases)
     (simp_all add: matrix_cell_above matrix_cell_diag matrix_cell_below del: fun_upd_apply)

lemma matrix_row_dom_mono:
  "k \<in> dom m \<Longrightarrow> k \<in> dom (matrix_row corr fs m i)"
  unfolding matrix_row_def
  by (rule foldl_invariant [where P = "\<lambda>m'. k \<in> dom m'"])
     (simp_all add: matrix_cell_dom_mono del: fun_upd_apply)

lemma matrix_cell_defines:
  assumes "all_have_values fs" "i \<le> j" "j < length fs"
  shows "key_of (fs ! i) (fs ! j) \<in> dom (matrix_cell corr fs i m j) \<and>
         key_of (fs ! j) (fs ! i) \<in> dom (matrix_cell corr fs i m j)"
proof -
  have "has_length (field_value (fs ! i))" "has_length (field_value (fs ! j))"
    using assms by (simp_all add: all_have_values_def)
  then show ?thesis
    using assms(2)
    by (cases i j rule: linorder_cases)
       (simp_all add: matrix_cell_above matrix_cell_diag del: fun_upd_apply)
qed

lemma dom_foldl_mono:
  assumes "k \<in> dom m" and "\<And>m' x. k \<in> dom m' \<Longrightarrow> k \<in> dom (f m' x)"
  shows "k \<in> dom (foldl f m xs)"
  using assms by (induction xs arbitrary: m) simp_all

lemma matrix_row_defines:
  assumes "all_have_values fs" "i \<le> j" "j < length fs"
  shows "key_of (fs ! i) (fs ! j) \<in> dom (matrix_row corr fs m i) \<and>
         key_of (fs ! j) (fs ! i) \<in> dom (matrix_row corr fs m i)"
proof -
  let ?f = "matrix_cell corr fs i"
  let ?m = "?f (foldl ?f m [0..<j]) j"
  have split: "matrix_row corr fs m i = foldl ?f ?m [Suc j..<length fs]"
    unfolding matrix_row_def using assms(3) by (rule foldl_upt_split)
  have "key_of (fs ! i) (fs ! j) \<in> dom ?m \<and> key_of (fs ! j) (fs ! i) \<in> dom ?m"
    using assms by (rule matrix_cell_defines)
  then show ?thesis
    unfolding split by (simp add: dom_foldl_mono matrix_cell_dom_mono del: fun_upd_apply)
qed

lemma matrix_defines:
  assumes "all_have_values fs" "i \<le> j" "j < length fs"
  shows "key_of (fs ! i) (fs ! j) \<in> dom (foldl (matrix_row corr fs) m [0..<length fs]) \<and>
         key_of (fs ! j) (fs ! i) \<in> dom (foldl (matrix_row corr fs) m [0..<length fs])"
proof -
  let ?f = "matrix_row corr fs"
  let ?m = "?f (foldl ?f m [0..<i]) i"
  have "i < length fs" using assms by simp
  then have split: "foldl ?f m [0..<length fs] = foldl ?f ?m [Suc i..<length fs]"
    by (rule foldl_upt_split)
  have "key_of (fs ! i) (fs ! j) \<in> dom ?m \<and> key_of (fs ! j) (fs ! i) \<in> dom ?m"
    using assms by (rule matrix_row_defines)
  then show ?thesis
    unfolding split by (simp add: dom_foldl_mono matrix_row_dom_mono del: fun_upd_apply)
qed

subsection \<open>Symmetry\<close>

lemma unambiguous_keys_swap:
  assumes "unambiguous_keys fs" "a \<in> set fs" "b \<in> set fs" "c \<in> set fs" "d \<in> set fs"
  shows "key_of a b = key_of c d \<longleftrightarrow> key_of b a = key_of d c"
  using assms unfolding unambiguous_keys_def by (meson key_of_names)

lemma matrix_cell_symmetric:
  assumes "unambiguous_keys fs" "i < length fs" "j < length fs" "symmetric_on fs m"
  shows "symmetric_on fs (matrix_cell corr fs i m j)"
  unfolding symmetric_on_def
proof (intro ballI)
  fix a b assume ab: "a \<in> set fs" "b \<in> set fs"
  let ?x = "fs ! i" and ?y = "fs ! j"
  have xy: "?x \<in> set fs" "?y \<in> set fs" using assms by simp_all
  have old: "m (key_of a b) = m (key_of b a)"
    using assms(4) ab by (simp add: symmetric_on_def)
  have 1: "key_of a b = key_of ?x ?y \<longleftrightarrow> key_of b a = key_of ?y ?x"
    using assms(1) ab xy by (rule unambiguous_keys_swap)
  have 2: "key_of a b = key_of ?y ?x \<longleftrightarrow> key_of b a = key_of ?x ?y"
    using assms(1) ab xy(2) xy(1) by (rule unambiguous_keys_swap)
  have 3: "key_of a b = key_of ?x ?x \<longleftrightarrow> key_of b a = key_of ?x ?x"
    using assms(1) ab xy(1) xy(1) by (rule unambiguous_keys_swap)
  show "matrix_cell corr fs i m j (key_of a b) = matrix_cell corr fs i m j (key_of b a)"
  proof (cases i j rule: linorder_cases)
    case less
    then show ?thesis using old 1 2 by (simp add: matrix_cell_above)
  next
    case equal
    then show ?thesis using old 3 by (simp add: matrix_cell_diag)
  next
    case greater
    then show ?thesis using old by (simp add: matrix_cell_below)
  qed
qed

lemma matrix_row_symmetric:
  assumes "unambiguous_keys fs" "i < length fs" "symmetric_on fs m"
  shows "symmetric_on fs (matrix_row corr fs m i)"
  unfolding matrix_row_def
  by (rule foldl_invariant [where P = "symmetric_on fs"])
     (use assms in \<open>simp_all add: matrix_cell_symmetric\<close>)

lemma matrix_symmetric:
  assumes "unambiguous_keys fs"
  shows "symmetric_on fs (foldl (matrix_row corr fs) Map.empty [0..<length fs])"
proof (rule foldl_invariant [where P = "symmetric_on fs"])
  show "symmetric_on fs Map.empty"
    by (simp add: symmetric_on_def)
next
  fix m i
  assume "i \<in> set [0..<length fs]" "symmetric_on fs m"
  then show "symmetric_on fs (matrix_row corr fs m i)"
    using assms by (simp add: matrix_row_symmetric)
qed

subsection \<open>The diagonal\<close>

lemma matrix_row_diagonal:
  assumes "all_have_values fs" "unambiguous_keys fs" "i < length fs"
    and last: "\<forall>q. i < q \<and> q < length fs \<longrightarrow>
                 template (field_name (fs ! q)) \<noteq> template (field_name (fs ! i))"
  shows "matrix_row corr fs m i (key_of (fs ! i) (fs ! i)) = Some (Num 1)"
proof -
  let ?f = "matrix_cell corr fs i"
  let ?k = "key_of (fs ! i) (fs ! i)"
  let ?m = "?f (foldl ?f m [0..<i]) i"
  have split: "matrix_row corr fs m i = foldl ?f ?m [Suc i..<length fs]"
    unfolding matrix_row_def using assms(3) by (rule foldl_upt_split)
  have "has_length (field_value (fs ! i))"
    using assms by (simp add: all_have_values_def)
  then have start: "?m ?k = Some (Num 1)"
    by (simp add: matrix_cell_diag)
  have step: "?f m' j ?k = Some (Num 1)"
    if "j \<in> set [Suc i..<length fs]" "m' ?k = Some (Num 1)" for m' j
  proof -
    from that have j: "i < j" "j < length fs" by simp_all
    then have ne: "template (field_name (fs ! j)) \<noteq> template (field_name (fs ! i))"
      using last by simp
    have mem: "fs ! i \<in> set fs" "fs ! j \<in> set fs" using assms(3) j by simp_all
    have "?k \<noteq> key_of (fs ! i) (fs ! j)" "?k \<noteq> key_of (fs ! j) (fs ! i)"
      using assms(2) mem ne unfolding unambiguous_keys_def by metis+
    then show ?thesis using that(2) by (simp add: matrix_cell_other_key)
  qed
  show ?thesis
    unfolding split
    by (rule foldl_invariant [where P = "\<lambda>m'. m' ?k = Some (Num 1)"]) (simp_all add: start step)
qed

lemma matrix_diagonal_upto:
  assumes "all_have_values fs" "unambiguous_keys fs" "i \<le> length fs" "p < i"
    and "\<forall>q. i \<le> q \<and> q < length fs \<longrightarrow>
           template (field_name (fs ! q)) \<noteq> template (field_name (fs ! p))"
  shows "foldl (matrix_row corr fs) Map.empty [0..<i] (key_of (fs ! p) (fs ! p)) = Some (Num 1)"
  using assms(3-)
proof (induction i)
  case 0
  then show ?case by simp
next
  case (Suc i)
  let ?m = "foldl (matrix_row corr fs) Map.empty [0..<i]"
  let ?k = "key_of (fs ! p) (fs ! p)"
  have i: "i < length fs" using Suc.prems by simp
  have unfold: "foldl (matrix_row corr fs) Map.empty [0..<Suc i] = matrix_row corr fs ?m i"
    by simp
  show ?case
  proof (cases "template (field_name (fs ! i)) = template (field_name (fs ! p))")
    case True
    then have k: "?k = key_of (fs ! i) (fs ! i)"
      by (simp add: key_of_def)
    have "\<forall>q. i < q \<and> q < length fs \<longrightarrow>
            template (field_name (fs ! q)) \<noteq> template (field_name (fs ! i))"
      using Suc.prems True by simp
    with assms(1,2) i show ?thesis
      unfolding unfold k by (rule matrix_row_diagonal)
  next
    case False
    then have "p \<noteq> i" by auto
    with Suc.prems have p: "p < i" by simp
    have "\<forall>q. i \<le> q \<and> q < length fs \<longrightarrow>
            template (field_name (fs ! q)) \<noteq> template (field_name (fs ! p))"
      using Suc.prems(3) False by (metis Suc_leI le_neq_implies_less)
    then have old: "?m ?k = Some (Num 1)"
      using Suc.IH i p by simp
    have mem: "fs ! p \<in> set fs" "fs ! i \<in> set fs" using p i by simp_all
    have "\<forall>j < length fs. ?k \<noteq> key_of (fs ! i) (fs ! j) \<and> ?k \<noteq> key_of (fs ! j) (fs ! i)"
    proof (intro allI impI)
      fix j assume "j < length fs"
      then have "fs ! j \<in> set fs" by simp
      then show "?k \<noteq> key_of (fs ! i) (fs ! j) \<and> ?k \<noteq> key_of (fs ! j) (fs ! i)"
        using assms(2) mem False unfolding unambiguous_keys_def by metis
    qed
    then show ?thesis
      unfolding unfold using old by (simp add: matrix_row_other_key)
  qed
qed

lemma underscore_split_unique:
  assumes "CHR ''_'' \<notin> set a" "CHR ''_'' \<notin> set c" "a @ ''_'' @ b = c @ ''_'' @ d"
  shows "a = c \<and> b = d"
  using assms
proof (induction a arbitrary: c)
  case Nil
  then show ?case by (cases c) auto
next
  case (Cons x a)
  then show ?case by (cases c) auto
qed

lemma no_underscore_unambiguous:
  assumes "\<forall>f \<in> set fs. CHR ''_'' \<notin> set (template (field_name f))"
  shows "unambiguous_keys fs"
  unfolding unambiguous_keys_def key_of_def
  using assms underscore_split_unique by blast

lemma correlations_unfold:
  "2 \<le> length (numericFields fs) \<Longrightarrow>
   correlations corr fs =
     foldl (matrix_row corr (numericFields fs)) Map.empty [0..<length (numericFields fs)]"
  by (simp add: correlations_def Let_def)

text \<open>
  C8, amended: when there are at least two numeric fields, all with non-empty arrays of
  values, and the keys tell the pairs of names apart, the map is symmetric with a unit
  diagonal: for numeric fields A and B the entries keyed A_B and B_A exist and are equal
  (they hold the same stored value), and the entry keyed A_A is 1.
\<close>

theorem C8_correlations_symmetric_unit_diagonal:
  assumes "2 \<le> length (numericFields data_fields)"
    and "all_have_values (numericFields data_fields)"
    and "unambiguous_keys (numericFields data_fields)"
  shows "(\<forall>A \<in> set (numericFields data_fields). \<forall>B \<in> set (numericFields data_fields).
            key_of A B \<in> dom (correlations corr data_fields) \<and>
            correlations corr data_fields (key_of A B)
              = correlations corr data_fields (key_of B A)) \<and>
         (\<forall>A \<in> set (numericFields data_fields).
            correlations corr data_fields (key_of A A) = Some (Num 1))"
proof (intro conjI ballI)
  let ?fs = "numericFields data_fields"
  let ?m = "foldl (matrix_row corr ?fs) Map.empty [0..<length ?fs]"
  have m: "correlations corr data_fields = ?m"
    using assms(1) by (rule correlations_unfold)
  {
    fix A B assume "A \<in> set ?fs" "B \<in> set ?fs"
    then obtain p q where pq: "p < length ?fs" "q < length ?fs" "A = ?fs ! p" "B = ?fs ! q"
      by (auto simp: in_set_conv_nth)
    show "key_of A B \<in> dom (correlations corr data_fields)"
    proof (cases "p \<le> q")
      case True
      with assms(2) pq show ?thesis
        unfolding m by (simp add: matrix_defines del: fun_upd_apply)
    next
      case False
      then have "q \<le> p" by simp
      with assms(2) pq show ?thesis
        unfolding m by (simp add: matrix_defines del: fun_upd_apply)
    qed
  next
    fix A B assume "A \<in> set ?fs" "B \<in> set ?fs"
    moreover have "symmetric_on ?fs ?m"
      using assms(3) by (rule matrix_symmetric)
    ultimately show "correlations corr data_fields (key_of A B)
                       = correlations corr data_fields (key_of B A)"
      unfolding m by (simp add: symmetric_on_def)
  next
    fix A assume "A \<in> set ?fs"
    then obtain p where p: "p < length ?fs" "A = ?fs ! p"
      by (auto simp: in_set_conv_nth)
    have "?m (key_of (?fs ! p) (?fs ! p)) = Some (Num 1)"
      using assms(2,3) _ p(1) by (rule matrix_diagonal_upto) auto
    then show "correlations corr data_fields (key_of A A) = Some (Num 1)"
      unfolding m p(2) .
  }
qed

lemma pearson_example: "calculatePearsonCorrelation [1, 2, 3] [1, 3, 2] = Num (1 / 2)"
  by (simp add: calculatePearsonCorrelation_def upt_rec numeral_3_eq_3)

lemma pearson_example_same: "calculatePearsonCorrelation [1, 2, 3] [1, 2, 3] = Num 1"
  by (simp add: calculatePearsonCorrelation_def upt_rec numeral_3_eq_3)

theorem C8_correlations_witness:
  "2 \<le> length (numericFields [numeric_field ''a'' [1, 2, 3], numeric_field ''b'' [1, 3, 2]]) \<and>
   all_have_values (numericFields [numeric_field ''a'' [1, 2, 3], numeric_field ''b'' [1, 3, 2]]) \<and>
   unambiguous_keys (numericFields [numeric_field ''a'' [1, 2, 3], numeric_field ''b'' [1, 3, 2]]) \<and>
   correlations engineCorrelation [numeric_field ''a'' [1, 2, 3], numeric_field ''b'' [1, 3, 2]] ''a_b''
     = correlations engineCorrelation [numeric_field ''a'' [1, 2, 3], numeric_field ''b'' [1, 3, 2]] ''b_a'' \<and>
   correlations engineCorrelation [numeric_field ''a'' [1, 2, 3], numeric_field ''b'' [1, 3, 2]] ''a_a''
     = Some (Num 1) \<and>
   correlations engineCorrelation [numeric_field ''a'' [1, 2, 3], numeric_field ''b'' [1, 3, 2]] ''b_b''
     = Some (Num 1)"
proof -
  let ?a = "numeric_field ''a'' [1, 2, 3]" and ?b = "numeric_field ''b'' [1, 3, 2]"
  let ?fs = "[?a, ?b]"
  have nf: "numericFields ?fs = ?fs"
    by (simp add: numericFields_def numeric_field_def)
  have 1: "2 \<le> length (numericFields ?fs)"
    by (simp add: nf)
  have 2: "all_have_values (numericFields ?fs)"
    unfolding nf by (simp add: all_have_values_def has_length_def numeric_field_def)
  have 3: "unambiguous_keys (numericFields ?fs)"
    unfolding nf by (rule no_underscore_unambiguous) (simp add: numeric_field_def template_def)
  note th = C8_correlations_symmetric_unit_diagonal [OF 1 2 3, of engineCorrelation, unfolded nf]
  have a: "?a \<in> set ?fs" and b: "?b \<in> set ?fs"
    by simp_all
  have keys: "key_of ?a ?b = ''a_b''" "key_of ?b ?a = ''b_a''"
    "key_of ?a ?a = ''a_a''" "key_of ?b ?b = ''b_b''"
    by (simp_all add: key_of_def numeric_field_def template_def)
  from th a b have "correlations engineCorrelation ?fs (key_of ?a ?b)
                      = correlations engineCorrelation ?fs (key_of ?b ?a)"
    by blast
  moreover from th a have "correlations engineCorrelation ?fs (key_of ?a ?a) = Some (Num 1)"
    by blast
  moreover from th b have "correlations engineCorrelation ?fs (key_of ?b ?b) = Some (Num 1)"
    by blast
  ultimately show ?thesis
    using 1 2 3 unfolding keys by blast
qed

text \<open>
  C8, as stated, fails. With a single numeric field the map is empty, so the entry keyed
  a_a is missing. With the names a_a, a and a_a_a the key of the pair (a, a_a_a) is the
  diagonal key of a_a and overwrites it with a correlation of 1/2. With the names a, b_c,
  a_b and c the key of the pair (a_b, c) is the key of (a, b_c), so the entries of
  (a, b_c) and (b_c, a) differ.
\<close>

theorem C8_correlations_counterexample:
  "all_have_values (numericFields [numeric_field ''a'' [1, 2]]) \<and>
   numeric_field ''a'' [1, 2] \<in> set (numericFields [numeric_field ''a'' [1, 2]]) \<and>
   correlations engineCorrelation [numeric_field ''a'' [1, 2]]
     (key_of (numeric_field ''a'' [1, 2]) (numeric_field ''a'' [1, 2])) = None \<and>
   all_have_values (numericFields
     [numeric_field ''a_a'' [1, 2, 3], numeric_field ''a'' [1, 2, 3],
      numeric_field ''a_a_a'' [1, 3, 2]]) \<and>
   correlations engineCorrelation
     [numeric_field ''a_a'' [1, 2, 3], numeric_field ''a'' [1, 2, 3],
      numeric_field ''a_a_a'' [1, 3, 2]]
     (key_of (numeric_field ''a_a'' [1, 2, 3]) (numeric_field ''a_a'' [1, 2, 3]))
       = Some (Num (1 / 2)) \<and>
   all_have_values (numericFields
     [numeric_field ''a'' [1, 2, 3], numeric_field ''b_c'' [1, 3, 2],
      numeric_field ''a_b'' [1, 2, 3], numeric_field ''c'' [1, 2, 3]]) \<and>
   correlations engineCorrelation
     [numeric_field ''a'' [1, 2, 3], numeric_field ''b_c'' [1, 3, 2],
      numeric_field ''a_b'' [1, 2, 3], numeric_field ''c'' [1, 2, 3]]
     (key_of (numeric_field ''a'' [1, 2, 3]) (numeric_field ''b_c'' [1, 3, 2]))
       = Some (Num 1) \<and>
   correlations engineCorrelation
     [numeric_field ''a'' [1, 2, 3], numeric_field ''b_c'' [1, 3, 2],
      numeric_field ''a_b'' [1, 2, 3], numeric_field ''c'' [1, 2, 3]]
     (key_of (numeric_field ''b_c'' [1, 3, 2]) (numeric_field ''a'' [1, 2, 3]))
       = Some (Num (1 / 2))"
proof -
  have u3: "[0..<3] = [0, 1, 2]"
    by (simp add: upt_rec numeral_3_eq_3)
  have u4: "[0..<4] = [0, 1, 2, 3]"
    by (simp add: upt_rec numeral_eq_Suc)
  show ?thesis
    by (simp add: correlations_def numericFields_def numeric_field_def all_have_values_def
          matrix_row_def matrix_cell_def key_of_def has_length_def template_def
          engineCorrelation_def pearson_example pearson_example_same u3 u4)
qed

section \<open>The summary\<close>

subsection \<open>trim\<close>

lemma dropWhile_no_prefix: "xs = [] \<or> \<not> P (hd xs) \<Longrightarrow> dropWhile P xs = xs"
  by (cases xs) auto

lemma dropWhile_head: "dropWhile P xs = [] \<or> \<not> P (hd (dropWhile P xs))"
  using hd_dropWhile [of P xs] by blast

lemma last_dropWhile: "dropWhile P xs \<noteq> [] \<Longrightarrow> last (dropWhile P xs) = last xs"
  by (induction xs) (auto split: if_splits)

lemma trim_no_leading: "dropWhile isSpace (trim s) = trim s"
proof -
  let ?t = "dropWhile isSpace s"
  let ?u = "dropWhile isSpace (rev ?t)"
  have "rev ?u = [] \<or> \<not> isSpace (hd (rev ?u))"
  proof (cases "?u = []")
    case True
    then show ?thesis by simp
  next
    case False
    then have "rev ?t \<noteq> []" by (metis dropWhile.simps(1))
    then have t: "?t \<noteq> []" by simp
    have "hd (rev ?u) = last ?u" using False by (simp add: hd_rev)
    also have "\<dots> = last (rev ?t)" using False by (rule last_dropWhile)
    also have "\<dots> = hd ?t" using t by (simp add: last_rev)
    finally have "hd (rev ?u) = hd ?t" .
    moreover have "\<not> isSpace (hd ?t)"
      using dropWhile_head [of isSpace s] t by blast
    ultimately show ?thesis by (simp only: not_False_eq_True simp_thms)
  qed
  then show ?thesis unfolding trim_def by (rule dropWhile_no_prefix)
qed

lemma trim_no_trailing: "dropWhile isSpace (rev (trim s)) = rev (trim s)"
  by (simp add: trim_def)

lemma trim_idem: "trim (trim s) = trim s"
proof -
  have "trim (trim s) = rev (dropWhile isSpace (rev (trim s)))"
    unfolding trim_def [of "trim s"] by (simp only: trim_no_leading)
  then show ?thesis by (simp add: trim_no_trailing)
qed

lemma all_dropWhile:
  assumes "\<forall>c \<in> set (dropWhile P s). P c"
  shows "\<forall>c \<in> set s. P c"
proof -
  have "dropWhile P (dropWhile P s) = []"
    using assms by (simp only: dropWhile_eq_Nil_conv)
  then have "dropWhile P s = []"
    by (simp only: dropWhile_idem)
  then show ?thesis
    by (simp only: dropWhile_eq_Nil_conv)
qed

lemma trim_Nil_iff: "trim s = [] \<longleftrightarrow> (\<forall>c \<in> set s. isSpace c)"
proof
  assume "trim s = []"
  then have "\<forall>c \<in> set (dropWhile isSpace s). isSpace c"
    by (simp add: trim_def dropWhile_eq_Nil_conv)
  then show "\<forall>c \<in> set s. isSpace c"
    by (rule all_dropWhile)
next
  assume "\<forall>c \<in> set s. isSpace c"
  then have "dropWhile isSpace s = []"
    by (simp add: dropWhile_eq_Nil_conv)
  then show "trim s = []"
    by (simp only: trim_def rev.simps dropWhile.simps)
qed

subsection \<open>The characters of the sentences\<close>

lemma set_replace: "set (replace pat rep s) \<subseteq> set s \<union> set rep"
proof (induction pat rep s rule: replace.induct)
  case (1 pat rep)
  then show ?case by simp
next
  case (2 pat rep c cs)
  have "set (drop (length pat) (c # cs)) \<subseteq> set (c # cs)"
    by (rule set_drop_subset)
  with 2 show ?case by (auto split: if_splits)
qed

lemma match_sentences_terminator:
  assumes "match_sentences s \<noteq> []"
  shows "\<exists>c \<in> set s. isTerminator c"
proof -
  let ?s1 = "dropWhile isTerminator s"
  let ?r = "dropWhile (\<lambda>c. \<not> isTerminator c) ?s1"
  let ?b = "takeWhile isTerminator ?r"
  have "?b \<noteq> []"
    using assms by (subst (asm) match_sentences.simps) (auto simp: Let_def split: if_splits)
  then obtain c where c: "c \<in> set ?b" by (cases ?b) auto
  then have "isTerminator c" by (rule set_takeWhileD [THEN conjunct2])
  moreover have "c \<in> set s"
    using c by (meson set_takeWhileD set_dropWhileD)
  ultimately show ?thesis by blast
qed

lemma placeholders_eq:
  "placeholders = [''ABBREV0'', ''ABBREV1'', ''ABBREV2'', ''ABBREV3'', ''ABBREV4'',
                   ''ABBREV5'', ''ABBREV6'', ''ABBREV7'']"
  by (simp add: placeholders_def abbrev_def upt_rec numeral_eq_Suc digits.simps digit_char_def)

lemma placeholder_no_terminator:
  "i < length abbrev \<Longrightarrow> c \<in> set (placeholders ! i) \<Longrightarrow> \<not> isTerminator c"
  by (auto simp: placeholders_eq abbrev_def isTerminator_def nth_Cons' split: if_splits)

lemma processed_terminator:
  assumes "\<forall>i \<in> set ks. i < length abbrev"
    and "c \<in> set (foldl (\<lambda>t i. replace (RegExp (abbrev ! i)) (placeholders ! i) t) str ks)"
    and "isTerminator c"
  shows "c \<in> set str"
  using assms
proof (induction ks arbitrary: str)
  case Nil
  then show ?case by simp
next
  case (Cons i ks)
  then have "c \<in> set (replace (RegExp (abbrev ! i)) (placeholders ! i) str)"
    by simp
  then have "c \<in> set str \<or> c \<in> set (placeholders ! i)"
    using set_replace by fastforce
  moreover have "c \<notin> set (placeholders ! i)"
    using Cons.prems placeholder_no_terminator [of i c] by auto
  ultimately show ?case by simp
qed

lemma splitSentences_not_blank:
  assumes "splitSentences str \<noteq> []"
  shows "trim str \<noteq> []"
proof -
  let ?p = "foldl (\<lambda>t i. replace (RegExp (abbrev ! i)) (placeholders ! i) t) str
              [0..<length abbrev]"
  have "match_sentences ?p \<noteq> []"
    using assms by (auto simp: splitSentences_def Let_def)
  then obtain c where c: "c \<in> set ?p" "isTerminator c"
    using match_sentences_terminator by blast
  then have "c \<in> set str"
    using processed_terminator [of "[0..<length abbrev]" c str] by simp
  moreover have "\<not> isSpace c"
    using c(2) by (auto simp: isTerminator_def isSpace_def)
  ultimately show ?thesis
    by (auto simp: trim_Nil_iff)
qed

lemma splitSentences_trimmed:
  "s \<in> set (splitSentences str) \<Longrightarrow> trim s = s"
  by (auto simp: splitSentences_def Let_def trim_idem)

subsection \<open>slice\<close>

lemma length_slice0: "0 \<le> k \<Longrightarrow> length (slice0 k xs) \<le> nat k"
  by (simp add: slice0_def)

lemma length_slice0_eq:
  "length (slice0 k xs) = (if k < 0 then nat (int (length xs) + k) else min (length xs) (nat k))"
  by (simp add: slice0_def)

lemma set_slice0: "set (slice0 k xs) \<subseteq> set xs"
  by (simp add: slice0_def set_take_subset)

lemma distinct_slice0: "distinct xs \<Longrightarrow> distinct (slice0 k xs)"
  by (simp add: slice0_def)

subsection \<open>The scored sentences\<close>

lemma scoreSentence_position: "ss_position (scoreSentence wordFreq n sentence idx) = idx"
  by (simp add: scoreSentence_def Let_def)

lemma scoreSentence_text: "ss_text (scoreSentence wordFreq n sentence idx) = trim sentence"
  by (simp add: scoreSentence_def Let_def)

lemma generateSummary_success:
  assumes "splitSentences (join '' '' (map Some texts)) \<noteq> []"
  shows "generateSummary texts maxSentences =
           Inr (sort_key ss_position
                  (slice0 maxSentences
                     (sort_key (\<lambda>s. - ss_score s)
                        (map (\<lambda>idx. scoreSentence
                                      (countWords (significantWords (join '' '' (map Some texts))))
                                      (length (splitSentences (join '' '' (map Some texts))))
                                      (splitSentences (join '' '' (map Some texts)) ! idx) idx)
                           [0..<length (splitSentences (join '' '' (map Some texts)))]))))"
  using assms splitSentences_not_blank [OF assms]
  by (simp add: generateSummary_def Let_def)

lemma generateSummary_length:
  assumes "splitSentences (join '' '' (map Some texts)) \<noteq> []"
  shows "map_sum id length (generateSummary texts maxSentences) =
           Inr (if maxSentences < 0
                then nat (int (length (splitSentences (join '' '' (map Some texts)))) + maxSentences)
                else min (length (splitSentences (join '' '' (map Some texts)))) (nat maxSentences))"
  by (simp add: generateSummary_success [OF assms] length_slice0_eq)

text \<open>
  C9, amended: for every input text with at least one sentence and every non-negative
  \<open>maxSentences\<close>, \<open>generateSummary\<close> returns a summary of at most
  \<open>maxSentences\<close> sentences, each of which is one of the sentences split from the
  text, at its position, and the summary is in ascending order of position, without
  repetition.
\<close>

theorem C9_generateSummary_selection:
  assumes "splitSentences (join '' '' (map Some texts)) \<noteq> []" and "0 \<le> maxSentences"
  shows "\<exists>summary.
           generateSummary texts maxSentences = Inr summary \<and>
           length summary \<le> nat maxSentences \<and>
           (\<forall>s \<in> set summary.
              ss_position s < length (splitSentences (join '' '' (map Some texts))) \<and>
              ss_text s = splitSentences (join '' '' (map Some texts)) ! ss_position s) \<and>
           sorted (map ss_position summary) \<and> distinct (map ss_position summary)"
proof -
  let ?sentences = "splitSentences (join '' '' (map Some texts))"
  let ?n = "length ?sentences"
  let ?wf = "countWords (significantWords (join '' '' (map Some texts)))"
  let ?scored = "map (\<lambda>idx. scoreSentence ?wf ?n (?sentences ! idx) idx) [0..<?n]"
  let ?ranked = "slice0 maxSentences (sort_key (\<lambda>s. - ss_score s) ?scored)"
  let ?summary = "sort_key ss_position ?ranked"
  have result: "generateSummary texts maxSentences = Inr ?summary"
    using assms(1) by (rule generateSummary_success)
  have positions: "map ss_position ?scored = [0..<?n]"
    by (simp add: scoreSentence_position comp_def)
  then have "distinct (map ss_position ?scored)"
    by (simp only: distinct_upt)
  then have d: "distinct ?scored" and inj: "inj_on ss_position (set ?scored)"
    by (simp_all only: distinct_map)
  have sub: "set ?summary \<subseteq> set ?scored"
    using set_slice0 [of maxSentences "sort_key (\<lambda>s. - ss_score s) ?scored"] by simp
  have len: "length ?summary \<le> nat maxSentences"
    using assms(2) by (simp add: length_slice0)
  have elems: "ss_position s < ?n \<and> ss_text s = ?sentences ! ss_position s"
    if "s \<in> set ?summary" for s
  proof -
    from that sub have "s \<in> set ?scored" by blast
    then obtain idx where idx: "idx < ?n" "s = scoreSentence ?wf ?n (?sentences ! idx) idx"
      by auto
    then have "?sentences ! idx \<in> set ?sentences" by simp
    then have "trim (?sentences ! idx) = ?sentences ! idx"
      by (rule splitSentences_trimmed)
    with idx show ?thesis
      by (simp add: scoreSentence_position scoreSentence_text)
  qed
  have srt: "sorted (map ss_position ?summary)"
    by (rule sorted_sort_key)
  have "distinct ?ranked"
    using d by (simp add: distinct_slice0)
  then have "distinct ?summary" by simp
  moreover have "inj_on ss_position (set ?summary)"
    using inj sub by (rule inj_on_subset)
  ultimately have dist: "distinct (map ss_position ?summary)"
    by (simp only: distinct_map simp_thms)
  from result len elems srt dist show ?thesis by blast
qed

lemma sentences_example:
  "splitSentences ''Cats purr. Dogs bark! Cats nap?''
     = [''Cats purr.'', ''Dogs bark!'', ''Cats nap?'']"
  by (simp add: splitSentences_def placeholders_eq abbrev_def RegExp_def isLineTerminator_def
        Let_def match_sentences.simps isTerminator_def trim_def isSpace_def upt_rec numeral_eq_Suc)

text \<open>
  C9, as stated, fails for a negative \<open>maxSentences\<close>: \<open>slice(0, -1)\<close> drops the
  last of the ranked sentences and keeps the others, so two of three sentences are
  selected although \<open>maxSentences\<close> is \<open>-1\<close>.
\<close>

theorem C9_negative_maxSentences:
  "splitSentences (join '' '' (map Some [''Cats purr. Dogs bark! Cats nap?''])) \<noteq> [] \<and>
   map_sum id length (generateSummary [''Cats purr. Dogs bark! Cats nap?''] (- 1)) = Inr 2"
proof -
  have ne: "splitSentences (join '' '' (map Some [''Cats purr. Dogs bark! Cats nap?''])) \<noteq> []"
    by (simp add: sentences_example)
  show ?thesis
    using ne generateSummary_length [OF ne, of "- 1"] by (simp add: sentences_example)
qed

lemma words_example:
  "significantWords ''Cats purr. Dogs bark! Cats nap?''
     = [''cats'', ''purr'', ''dogs'', ''bark'', ''cats'', ''nap'']"
  "significantWords ''Cats purr.'' = [''cats'', ''purr'']"
  "significantWords ''Dogs bark!'' = [''dogs'', ''bark'']"
  "significantWords ''Cats nap?'' = [''cats'', ''nap'']"
  by (simp_all add: significantWords_def toLowerCase_def isWordChar_def isSpace_def
        split_whitespace.simps stopWords_def Let_def)

lemma trim_example:
  "trim ''Cats purr.'' = ''Cats purr.''" "trim ''Dogs bark!'' = ''Dogs bark!''"
  "trim ''Cats nap?'' = ''Cats nap?''"
  by (simp_all add: trim_def isSpace_def)

lemma scores_example:
  "scoreSentence (countWords [''cats'', ''purr'', ''dogs'', ''bark'', ''cats'', ''nap'']) 3
     ''Cats purr.'' 0 = \<lparr>ss_text = ''Cats purr.'', ss_score = 353 / 300, ss_position = 0\<rparr>"
  "scoreSentence (countWords [''cats'', ''purr'', ''dogs'', ''bark'', ''cats'', ''nap'']) 3
     ''Dogs bark!'' 1 = \<lparr>ss_text = ''Dogs bark!'', ss_score = 244 / 300, ss_position = 1\<rparr>"
  "scoreSentence (countWords [''cats'', ''purr'', ''dogs'', ''bark'', ''cats'', ''nap'']) 3
     ''Cats nap?'' 2 = \<lparr>ss_text = ''Cats nap?'', ss_score = 353 / 300, ss_position = 2\<rparr>"
  by (simp_all add: scoreSentence_def words_example trim_example countWords_def Let_def)

theorem C9_generateSummary_witness:
  "splitSentences (join '' '' (map Some [''Cats purr. Dogs bark! Cats nap?''])) \<noteq> [] \<and>
   (0 :: int) \<le> 2 \<and>
   generateSummary [''Cats purr. Dogs bark! Cats nap?''] 2
     = Inr [\<lparr>ss_text = ''Cats purr.'', ss_score = 353 / 300, ss_position = 0\<rparr>,
            \<lparr>ss_text = ''Cats nap?'', ss_score = 353 / 300, ss_position = 2\<rparr>]"
proof -
  let ?t = "''Cats purr. Dogs bark! Cats nap?''"
  have full: "join '' '' (map Some [?t]) = ?t"
    by simp
  have ne: "splitSentences (join '' '' (map Some [?t])) \<noteq> []"
    by (simp add: sentences_example)
  have len: "length [''Cats purr.'', ''Dogs bark!'', ''Cats nap?''] = 3"
    by simp
  have upt: "[0..<3] = [0, 1, 2]"
    by (simp add: upt_rec numeral_eq_Suc)
  have nths: "[a, b, c] ! 0 = a" "[a, b, c] ! 1 = b" "[a, b, c] ! 2 = c" for a b c :: string
    by simp_all
  have val: "generateSummary [?t] 2
     = Inr [\<lparr>ss_text = ''Cats purr.'', ss_score = 353 / 300, ss_position = 0\<rparr>,
            \<lparr>ss_text = ''Cats nap?'', ss_score = 353 / 300, ss_position = 2\<rparr>]"
    apply (simp only: generateSummary_success [OF ne])
    apply (simp only: full)
    apply (simp only: sentences_example)
    apply (simp only: len upt list.map nths words_example)
    apply (simp only: scores_example)
    apply (simp add: slice0_def)
    done
  show ?thesis
    using C9_generateSummary_selection [OF ne, of 2] ne val by simp
qed

end
